theory Spec2Isabelle
  imports Main
begin

text \<open>
  A model of \<^verbatim>\<open>requester.py\<close>: the class \<^verbatim>\<open>Requester\<close>, which turns one line of
  the instruction file into an \<^verbatim>\<open>ffmpeg\<close> command, and the functions \<^verbatim>\<open>get_exists\<close>,
  \<^verbatim>\<open>get_requesters\<close>, \<^verbatim>\<open>backup\<close> and \<^verbatim>\<open>main\<close> around it. Every function takes
  the world (file system, log, shell commands, files written) and returns it; an
  exception is the left summand of the result.
\<close>

section \<open>Python strings\<close>

text \<open>
  Strings are character lists. The characters that cannot be written inside a
  string literal get a name.
\<close>

abbreviation TAB :: char where "TAB \<equiv> CHR 0x09"
abbreviation DQ :: char where "DQ \<equiv> CHR 0x22"
abbreviation SQ :: char where "SQ \<equiv> CHR 0x27"
abbreviation NL :: char where "NL \<equiv> CHR 0x0A"
abbreviation BSL :: char where "BSL \<equiv> CHR 0x5C"

text \<open>\<^verbatim>\<open>s.startswith(p)\<close>, \<^verbatim>\<open>s.endswith(p)\<close> and \<^verbatim>\<open>sub in s\<close>.\<close>

fun startswith :: "string \<Rightarrow> string \<Rightarrow> bool" where
  "startswith s [] = True"
| "startswith [] (p # ps) = False"
| "startswith (c # cs) (p # ps) = (c = p \<and> startswith cs ps)"

definition endswith :: "string \<Rightarrow> string \<Rightarrow> bool" where
  "endswith s p = startswith (rev s) (rev p)"

fun contains :: "string \<Rightarrow> string \<Rightarrow> bool" where
  "contains [] sub = (sub = [])"
| "contains (c # cs) sub = (startswith (c # cs) sub \<or> contains cs sub)"

text \<open>
  \<^verbatim>\<open>s.replace(old, new)\<close>: the occurrences of \<open>old\<close> are found from the left and do
  not overlap. With an empty \<open>old\<close> Python puts \<open>new\<close> before every character and at
  the end.
\<close>

function replace :: "string \<Rightarrow> string \<Rightarrow> string \<Rightarrow> string" where
  "replace s old new =
     (if old = [] then new @ concat (map (\<lambda>c. c # new) s)
      else if s = [] then []
      else if startswith s old then new @ replace (drop (length old) s) old new
      else hd s # replace (tl s) old new)"
  by pat_completeness auto
termination
  by (relation "measure (\<lambda>(s, old, new). length s)") (auto simp: neq_Nil_conv)

declare replace.simps [simp del]

text \<open>\<^verbatim>\<open>s.split(sep)\<close> for a separator of one character: never an empty list.\<close>

fun split :: "string \<Rightarrow> char \<Rightarrow> string list" where
  "split [] sep = [[]]"
| "split (c # cs) sep =
     (if c = sep then [] # split cs sep
      else (case split cs sep of [] \<Rightarrow> [[c]] | f # fs \<Rightarrow> (c # f) # fs))"

text \<open>\<^verbatim>\<open>sep.join(xs)\<close>.\<close>

fun join :: "string \<Rightarrow> string list \<Rightarrow> string" where
  "join sep [] = []"
| "join sep [x] = x"
| "join sep (x # y # ys) = x @ sep @ join sep (y # ys)"

subsection \<open>\<^verbatim>\<open>int(s)\<close> and \<^verbatim>\<open>f"{n:02d}"\<close>\<close>

text \<open>
  \<^verbatim>\<open>int(s)\<close> strips white space, reads an optional sign, then decimal digits that
  single underscores may separate; anything else raises \<^verbatim>\<open>ValueError\<close> (\<open>None\<close>
  here). Only ASCII digits and ASCII white space are modelled.
\<close>

definition is_space :: "char \<Rightarrow> bool" where
  "is_space c = (c \<in> set [CHR 0x09, CHR 0x0A, CHR 0x0B, CHR 0x0C, CHR 0x0D,
                            CHR 0x1C, CHR 0x1D, CHR 0x1E, CHR 0x1F, CHR 0x20])"

definition strip :: "string \<Rightarrow> string" where
  "strip s = rev (dropWhile is_space (rev (dropWhile is_space s)))"

definition is_digit :: "char \<Rightarrow> bool" where
  "is_digit c = (c \<in> set ''0123456789'')"

definition digit_val :: "char \<Rightarrow> int" where
  "digit_val c = int (of_char c) - 48"

fun digits_ok :: "string \<Rightarrow> bool" where
  "digits_ok [] = False"
| "digits_ok [c] = is_digit c"
| "digits_ok (c # d # cs) =
     (is_digit c \<and> (if d = CHR ''_'' then digits_ok cs else digits_ok (d # cs)))"

definition digits_val :: "string \<Rightarrow> int" where
  "digits_val ds = foldl (\<lambda>acc c. acc * 10 + digit_val c) 0 (filter (\<lambda>c. c \<noteq> CHR ''_'') ds)"

definition py_int :: "string \<Rightarrow> int option" where
  "py_int s =
     (case strip s of
        [] \<Rightarrow> None
      | c # cs \<Rightarrow>
          if c = CHR ''-'' then (if digits_ok cs then Some (- digits_val cs) else None)
          else if c = CHR ''+'' then (if digits_ok cs then Some (digits_val cs) else None)
          else if digits_ok (c # cs) then Some (digits_val (c # cs)) else None)"

text \<open>\<^verbatim>\<open>str(n)\<close> for a natural number, and the format \<^verbatim>\<open>02d\<close>: at least two
  characters, filled with zeros; a negative number carries its sign.\<close>

definition digit_char :: "nat \<Rightarrow> char" where
  "digit_char n = ''0123456789'' ! n"

fun str_nat :: "nat \<Rightarrow> string" where
  "str_nat n = (if n < 10 then [digit_char n] else str_nat (n div 10) @ [digit_char (n mod 10)])"

declare str_nat.simps [simp del]

definition fmt_02d :: "int \<Rightarrow> string" where
  "fmt_02d n =
     (if n < 0 then CHR ''-'' # str_nat (nat (- n))
      else if n < 10 then CHR ''0'' # str_nat (nat n)
      else str_nat (nat n))"


section \<open>The world outside the program\<close>

text \<open>
  The file system maps the path of a file to its size in bytes; directories are not
  modelled, so \<^verbatim>\<open>os.makedirs\<close> has no counterpart. The world also keeps what the
  program tells the outside: the log, the commands given to \<^verbatim>\<open>os.system\<close>, and the
  files written by \<^verbatim>\<open>backup\<close> with their lines.
\<close>

type_synonym fs = "string \<rightharpoonup> nat"

datatype log_entry = Info string | Warning string | Error string | Printed string

record world =
  files :: fs
  logged :: "log_entry list"
  invoked :: "string list"
  written :: "(string \<times> string list) list"

datatype exn = AssertionError string | ValueError string | BotDetection | DownloadError string
  | OSError string

text \<open>What \<^verbatim>\<open>pytubefix\<close> answers: a downloaded file (its path and size), the
  bot detection that \<^verbatim>\<open>set_input_file\<close> catches, or any other failure.\<close>

datatype fetched = Downloaded string nat | Denied | Failed string

text \<open>
  The configuration (\<^verbatim>\<open>local_config\<close> is not part of the sources), the functions
  of \<^verbatim>\<open>os.path\<close>, which depend on the platform, and the external collaborators are
  parameters: \<open>glob\<close> and \<open>listdir\<close> read the file system, \<open>youtube\<close> takes the
  reference and the download folder, \<open>ffprobe\<close> takes the command line and returns
  the standard output (\<open>None\<close> when the process cannot be started), \<open>system\<close> is the
  effect of a shell command on the file system, \<open>today\<close> is
  \<^verbatim>\<open>datetime.now().strftime('%Y-%m-%d')\<close> and \<open>repr\<close> prints a list of strings.
\<close>

record env =
  INPUT_FOLDER :: string
  OUTPUT_FOLDER :: string
  BACKUP_FOLDER :: string
  path_join :: "string \<Rightarrow> string \<Rightarrow> string"
  path_basename :: "string \<Rightarrow> string"
  path_splitext :: "string \<Rightarrow> string \<times> string"
  glob :: "string \<Rightarrow> fs \<Rightarrow> string list"
  listdir :: "string \<Rightarrow> fs \<Rightarrow> string list"
  youtube :: "string \<Rightarrow> string \<Rightarrow> fs \<Rightarrow> fetched"
  ffprobe :: "string \<Rightarrow> fs \<Rightarrow> string option"
  system :: "string \<Rightarrow> fs \<Rightarrow> fs"
  today :: string
  repr :: "string list \<Rightarrow> string"

definition logger :: "string \<Rightarrow> world \<Rightarrow> world" where
  "logger m w = w\<lparr>logged := logged w @ [Info m]\<rparr>"

definition logger_warning :: "string \<Rightarrow> world \<Rightarrow> world" where
  "logger_warning m w = w\<lparr>logged := logged w @ [Warning m]\<rparr>"

definition logger_error :: "string \<Rightarrow> world \<Rightarrow> world" where
  "logger_error m w = w\<lparr>logged := logged w @ [Error m]\<rparr>"

definition print :: "string \<Rightarrow> world \<Rightarrow> world" where
  "print m w = w\<lparr>logged := logged w @ [Printed m]\<rparr>"

definition path_exists :: "world \<Rightarrow> string \<Rightarrow> bool" where
  "path_exists w p = (files w p \<noteq> None)"

definition path_getsize :: "world \<Rightarrow> string \<Rightarrow> nat" where
  "path_getsize w p = (case files w p of Some n \<Rightarrow> n | None \<Rightarrow> 0)"

definition os_system :: "env \<Rightarrow> string \<Rightarrow> world \<Rightarrow> world" where
  "os_system e c w = w\<lparr>files := system e c (files w), invoked := invoked w @ [c]\<rparr>"

text \<open>
  Modelled from the spec: \<^verbatim>\<open>ExistingFilename\<close> belongs to the package \<^verbatim>\<open>rignak\<close>,
  which is not among the sources. Section 4.3 requires the resulting path to exist,
  and \<^verbatim>\<open>Requester.__init__\<close> catches \<^verbatim>\<open>AssertionError\<close>: the constructor returns the
  path when a file is there and raises the assertion with the message otherwise.
\<close>

definition ExistingFilename :: "string \<Rightarrow> string \<Rightarrow> world \<Rightarrow> exn + string" where
  "ExistingFilename p message w =
     (if path_exists w p then Inr p else Inl (AssertionError message))"

section \<open>The class \<^verbatim>\<open>Requester\<close>\<close>

record requester =
  input_filename :: "string option"
  line :: "string option"
  output_filename :: string
  duration :: string
  start :: string
  command :: "string option"
  ready :: bool
  video_options :: "string list"
  audio_options :: "string list"
  options :: "string list"

text \<open>The fields as \<^verbatim>\<open>__init__\<close> sets them before the \<^verbatim>\<open>try\<close>.\<close>

definition fresh :: "string \<Rightarrow> requester" where
  "fresh out =
     \<lparr>input_filename = None, line = None, output_filename = out, duration = [],
      start = [], command = None, ready = False,
      video_options =
        [''-c:v libsvtav1'', ''-c:s copy'', ''-c:a copy'', ''-map 0:a'', ''-map 0:v:0'',
         ''-map 0:s?'', ''-force_key_frames 0'', ''-crf 32'', ''-threads 3'',
         ''-pix_fmt yuv420p10le''],
      audio_options = [''-codec:a libmp3lame'', ''-qscale:a 3''],
      options = [''-v quiet'']\<rparr>"

text \<open>An f-string prints a missing value as \<^verbatim>\<open>None\<close>.\<close>

definition str_opt :: "string option \<Rightarrow> string" where
  "str_opt x = (case x of None \<Rightarrow> ''None'' | Some s \<Rightarrow> s)"

definition get_input_from_youtube :: "env \<Rightarrow> string \<Rightarrow> world \<Rightarrow> (exn + string) \<times> world" where
  "get_input_from_youtube e url w =
     (let w1 = logger (''Download from '' @ url) w in
      case youtube e url (INPUT_FOLDER e) (files w1) of
        Denied \<Rightarrow> (Inl BotDetection, w1)
      | Failed m \<Rightarrow> (Inl (DownloadError m), w1)
      | Downloaded p n \<Rightarrow>
          (let w2 = w1\<lparr>files := (files w1)(p \<mapsto> n)\<rparr> in
           case ExistingFilename p [] w2 of
             Inl x \<Rightarrow> (Inl x, w2)
           | Inr f \<Rightarrow> (Inr f, logger ''Download OK'' w2)))"

definition set_input_file ::
  "env \<Rightarrow> requester \<Rightarrow> string \<Rightarrow> world \<Rightarrow> (exn + requester) \<times> world" where
  "set_input_file e self inp w =
     (let attempt =
        (if contains inp ''youtube.com'' then
           (case get_input_from_youtube e inp w of
              (Inr f, w1) \<Rightarrow> (Inr (Some f), w1)
            | (Inl BotDetection, w1) \<Rightarrow> (Inr None, print ''BotDetection'' w1)
            | (Inl x, w1) \<Rightarrow> (Inl x, w1))
         else (Inr None, w))
      in case attempt of
           (Inl x, w1) \<Rightarrow> (Inl x, w1)
         | (Inr (Some f), w1) \<Rightarrow> (Inr (self\<lparr>input_filename := Some f\<rparr>), w1)
         | (Inr None, w1) \<Rightarrow>
             (let p = path_join e (INPUT_FOLDER e) inp;
                  message = path_basename e p @ '': Source not found.''
              in case ExistingFilename p message w1 of
                   Inl x \<Rightarrow> (Inl x, w1)
                 | Inr f \<Rightarrow> (Inr (self\<lparr>input_filename := Some f\<rparr>), w1)))"

definition probe_command :: "requester \<Rightarrow> string" where
  "probe_command self =
     ''ffprobe -v error -select_streams v:0 -show_entries stream=width,height ''
     @ ''-of csv=s=x:p=0 '' @ [DQ] @ str_opt (input_filename self) @ [DQ]"

definition add_resize_option :: "env \<Rightarrow> requester \<Rightarrow> world \<Rightarrow> exn + requester" where
  "add_resize_option e self w =
     (let cmd = probe_command self
      in case ffprobe e cmd (files w) of
           None \<Rightarrow> Inl (OSError cmd)
         | Some out \<Rightarrow>
             if contains out ''1080'' then
               Inr (self\<lparr>video_options := video_options self
                      @ [''-vf '' @ [DQ] @ ''scale=trunc(iw/2)*2:720'' @ [DQ]]\<rparr>)
             else
               Inr (self\<lparr>video_options := video_options self
                      @ [''-vf '' @ [DQ] @ ''scale=trunc(iw/2)*2:trunc(ih/2)*2'' @ [DQ]]\<rparr>))"

definition set_output_file :: "env \<Rightarrow> requester \<Rightarrow> string \<Rightarrow> world \<Rightarrow> exn + requester" where
  "set_output_file e self out w =
     (let self1 = self\<lparr>output_filename := path_join e (OUTPUT_FOLDER e) out\<rparr> in
      if endswith (output_filename self1) ''.mp3'' then
        (let self2 = self1\<lparr>options := options self1 @ audio_options self1\<rparr>;
             title = path_basename e (fst (path_splitext e (output_filename self2)))
         in Inr (self2\<lparr>options := options self2
                   @ [''-metadata title='' @ [DQ] @ title @ [DQ]]\<rparr>))
      else if endswith (output_filename self1) ''.mkv'' then
        (case add_resize_option e self1 w of
           Inl x \<Rightarrow> Inl x
         | Inr self2 \<Rightarrow> Inr (self2\<lparr>options := options self2 @ video_options self2\<rparr>))
      else Inr self1)"

text \<open>The three slices of a time string, each read by \<^verbatim>\<open>int\<close>.\<close>

definition to_seconds :: "string \<Rightarrow> exn + int" where
  "to_seconds t =
     (case py_int (take 2 t) of
        None \<Rightarrow> Inl (ValueError (take 2 t))
      | Some hour \<Rightarrow>
          (case py_int (take 2 (drop 3 t)) of
             None \<Rightarrow> Inl (ValueError (take 2 (drop 3 t)))
           | Some minute \<Rightarrow>
               (case py_int (take 2 (drop 6 t)) of
                  None \<Rightarrow> Inl (ValueError (take 2 (drop 6 t)))
                | Some second \<Rightarrow> Inr (hour * 3600 + minute * 60 + second))))"

definition set_duration :: "env \<Rightarrow> requester \<Rightarrow> string \<Rightarrow> string \<Rightarrow> exn + requester" where
  "set_duration e self start_timestring end_timestring =
     (if end_timestring = ''00:00:00'' then Inr self
      else
        (case to_seconds start_timestring of
           Inl x \<Rightarrow> Inl x
         | Inr s \<Rightarrow>
             (case to_seconds end_timestring of
                Inl x \<Rightarrow> Inl x
              | Inr t \<Rightarrow>
                  (let d = t - s;
                       message = path_basename e (output_filename self) @ '': Check duration.''
                   in if \<not> d > 0 then Inl (AssertionError message)
                      else Inr (self\<lparr>duration := ''-t '' @ fmt_02d (d div 3600) @ '':''
                                  @ fmt_02d (d mod 3600 div 60) @ '':''
                                  @ fmt_02d (d mod 60)\<rparr>)))))"

definition set_start :: "requester \<Rightarrow> string \<Rightarrow> requester" where
  "set_start self start_timestring =
     (if start_timestring = ''00:00:00'' then self
      else self\<lparr>start := ''-ss '' @ start_timestring\<rparr>)"

text \<open>
  \<^verbatim>\<open>__init__\<close>: an \<^verbatim>\<open>AssertionError\<close> of one of the four steps leaves the object as it
  was before that step, not ready; any other exception leaves the constructor.
\<close>

definition Requester ::
  "env \<Rightarrow> string \<Rightarrow> string \<Rightarrow> string \<Rightarrow> string \<Rightarrow> world \<Rightarrow> (exn + requester) \<times> world" where
  "Requester e inp out start_datestring end_datestring w =
     (let self = fresh out in
      case set_input_file e self inp w of
        (Inl (AssertionError m), w1) \<Rightarrow> (Inr self, w1)
      | (Inl x, w1) \<Rightarrow> (Inl x, w1)
      | (Inr self1, w1) \<Rightarrow>
          (case set_output_file e self1 out w1 of
             Inl (AssertionError m) \<Rightarrow>
               (Inr (self1\<lparr>output_filename := path_join e (OUTPUT_FOLDER e) out\<rparr>), w1)
           | Inl x \<Rightarrow> (Inl x, w1)
           | Inr self2 \<Rightarrow>
               (let self3 = set_start self2 start_datestring in
                case set_duration e self3 start_datestring end_datestring of
                  Inl (AssertionError m) \<Rightarrow> (Inr self3, w1)
                | Inl x \<Rightarrow> (Inl x, w1)
                | Inr self4 \<Rightarrow>
                    (let self5 = self4\<lparr>ready := True\<rparr> in
                     if startswith out ''-'' then (Inr (self5\<lparr>ready := False\<rparr>), w1)
                     else (Inr self5, w1)))))"

definition run :: "env \<Rightarrow> requester \<Rightarrow> bool \<Rightarrow> world \<Rightarrow> string \<times> requester \<times> world" where
  "run e self only_generate_command w =
     (let c = ''ffmpeg '' @ start self @ '' -i '' @ [DQ] @ str_opt (input_filename self) @ [DQ]
              @ '' '' @ duration self @ '' '' @ join '' '' (options self) @ '' ''
              @ [DQ] @ output_filename self @ [DQ];
          self1 = self\<lparr>command := Some c\<rparr>
      in if \<not> only_generate_command then
           (let w1 = os_system e c (print c w);
                w2 = (if \<not> path_exists w1 (output_filename self1) then
                        logger_error (''No file created: '' @ output_filename self1) w1
                      else if path_getsize w1 (output_filename self1) < 1024 then
                        logger_error (''Very small file created: '' @ output_filename self1) w1
                      else w1)
            in (c, self1, w2))
         else (c, self1, w))"


section \<open>The batch\<close>

text \<open>\<^verbatim>\<open>backup\<close> writes the lines to the file of the day, replacing what was there.\<close>

definition backup :: "env \<Rightarrow> string list \<Rightarrow> world \<Rightarrow> world" where
  "backup e cs w =
     (let backup_filename = path_join e (BACKUP_FOLDER e) (today e @ ''.txt'')
      in w\<lparr>files := (files w)(backup_filename \<mapsto> length (concat cs)),
           written := written w @ [(backup_filename, cs)]\<rparr>)"

text \<open>
  \<^verbatim>\<open>get_exists\<close> lists the base names of the \<^verbatim>\<open>.mkv\<close> files below the two roots;
  the closure it returns is \<open>exists\<close>, applied to that list.
\<close>

definition get_exists :: "env \<Rightarrow> world \<Rightarrow> string list \<times> world" where
  "get_exists e w =
     (let roots = [OUTPUT_FOLDER e, ''D:'' @ [BSL] @ ''OneDrive/Videos''];
          available_filenames =
            map (path_basename e) (concat (map (\<lambda>root. glob e (root @ ''/**/*.mkv'') (files w)) roots))
      in (available_filenames,
          logger (''Found '' @ str_nat (length available_filenames) @ '' existing .mkv.'') w))"

definition exists :: "env \<Rightarrow> string list \<Rightarrow> string \<Rightarrow> bool" where
  "exists e available_filenames filename = (path_basename e filename \<in> set available_filenames)"

lemma length_replace_le:
  "length new \<le> length old \<Longrightarrow> old \<noteq> [] \<Longrightarrow> length (replace s old new) \<le> length s"
proof (induction s old new rule: replace.induct)
  case (1 s old new)
  show ?case
  proof (cases "s = []")
    case True
    then show ?thesis using "1.prems" by (simp add: replace.simps)
  next
    case False
    note ne = this
    show ?thesis
    proof (cases "startswith s old")
      case True
      have "length (replace (drop (length old) s) old new) \<le> length (drop (length old) s)"
        using "1.IH"(1) "1.prems" ne True by simp
      moreover have "length old \<le> length s"
        using True by (induction s old rule: startswith.induct) auto
      ultimately show ?thesis
        using "1.prems" ne True by (subst replace.simps) simp
    next
      case False
      have "length (replace (tl s) old new) \<le> length (tl s)"
        using "1.IH"(2) "1.prems" ne False by simp
      then show ?thesis
        using "1.prems" ne False by (subst replace.simps) (cases s, auto)
    qed
  qed
qed

lemma length_replace_less:
  "contains s old \<Longrightarrow> length new < length old \<Longrightarrow> length (replace s old new) < length s"
proof (induction s old new rule: replace.induct)
  case (1 s old new)
  have old: "old \<noteq> []" using "1.prems" by auto
  have s: "s \<noteq> []" using "1.prems" old by (cases s) auto
  show ?case
  proof (cases "startswith s old")
    case True
    have "length (replace (drop (length old) s) old new) \<le> length (drop (length old) s)"
      using length_replace_le [of new old "drop (length old) s"] "1.prems" old by simp
    moreover have "length old \<le> length s"
      using True by (induction s old rule: startswith.induct) auto
    ultimately show ?thesis
      using "1.prems" old s True by (subst replace.simps) simp
  next
    case False
    then have "contains (tl s) old" using "1.prems" s by (cases s) auto
    then have "length (replace (tl s) old new) < length (tl s)"
      using "1.IH"(2) "1.prems" old s False by simp
    then show ?thesis
      using old s False by (subst replace.simps) (cases s, auto)
  qed
qed

text \<open>The loop \<^verbatim>\<open>while '\t\t' in line: line = line.replace('\t\t', '\t')\<close>.\<close>

function collapse :: "string \<Rightarrow> string" where
  "collapse ln = (if contains ln [TAB, TAB] then collapse (replace ln [TAB, TAB] [TAB]) else ln)"
  by pat_completeness auto
termination
  by (relation "measure length") (auto intro: length_replace_less)

declare collapse.simps [simp del]

record loop_state =
  args :: "(string \<times> string \<times> string \<times> string) list"
  requesters :: "requester list"
  commands :: "string list"

text \<open>
  One turn of the loop of \<^verbatim>\<open>get_requesters\<close>. The Boolean of the result says
  whether the loop stops (\<^verbatim>\<open>break\<close>); an exception that \<^verbatim>\<open>Requester\<close> does not
  catch leaves the loop.
\<close>

definition process_line ::
  "env \<Rightarrow> bool \<Rightarrow> string list \<Rightarrow> string \<Rightarrow> loop_state \<Rightarrow> world
     \<Rightarrow> (exn + bool \<times> loop_state) \<times> world" where
  "process_line e return_args available ln st w =
     (let original_line = ln in
      if startswith ln ''#'' then (Inr (False, st), w)
      else if startswith ln ''STOP'' then (Inr (True, st), w)
      else
        (let split_line = split (collapse ln) TAB in
         if length split_line \<noteq> 4 then
           (if length split_line > 3 then
              (Inr (False, st), logger_warning (''Check delimiters: '' @ repr e split_line) w)
            else (Inr (False, st), w))
         else
           (let out0 = split_line ! 0;
                start_timestring = split_line ! 1;
                end_timestring = split_line ! 2;
                inp = split_line ! 3;
                out = replace (replace (replace out0 ''?'' []) [SQ] []) [DQ] [SQ];
                st1 = st\<lparr>args := args st @ [(inp, out, start_timestring, end_timestring)]\<rparr>
            in if exists e available out \<or> return_args then (Inr (False, st1), w)
               else
                 (case Requester e inp out start_timestring end_timestring w of
                    (Inl x, w1) \<Rightarrow> (Inl x, w1)
                  | (Inr r, w1) \<Rightarrow>
                      if \<not> ready r then (Inr (False, st1), w1)
                      else if path_exists w1 (output_filename r) then
                        (let w2 = logger (''Already processed: '' @ output_filename r) w1 in
                         if path_getsize w2 (output_filename r) < 1024 then
                           (Inr (False, st1\<lparr>commands := commands st1 @ [original_line @ [NL]]\<rparr>),
                            logger_warning (''Please check: '' @ output_filename r) w2)
                         else (Inr (False, st1), w2))
                      else if ready r then
                        (Inr (False, st1\<lparr>requesters := requesters st1 @ [r]\<rparr>), w1)
                      else (Inr (False, st1), w1)))))"

fun lines_loop ::
  "env \<Rightarrow> bool \<Rightarrow> string list \<Rightarrow> string list \<Rightarrow> loop_state \<Rightarrow> world
     \<Rightarrow> (exn + loop_state) \<times> world" where
  "lines_loop e return_args available [] st w = (Inr st, w)"
| "lines_loop e return_args available (ln # rest) st w =
     (case process_line e return_args available ln st w of
        (Inl x, w1) \<Rightarrow> (Inl x, w1)
      | (Inr (True, st1), w1) \<Rightarrow> (Inr st1, w1)
      | (Inr (False, st1), w1) \<Rightarrow> lines_loop e return_args available rest st1 w1)"

text \<open>
  \<^verbatim>\<open>get_requesters\<close> returns \<open>args\<close> or \<open>requesters\<close>; the list \<open>commands\<close> of the
  loop is local and is not returned. \<open>get_requesters_state\<close> is the state when the
  loop ends, \<open>get_requesters\<close> what the caller receives.
\<close>

definition get_requesters_state ::
  "env \<Rightarrow> string list \<Rightarrow> bool \<Rightarrow> world \<Rightarrow> (exn + loop_state) \<times> world" where
  "get_requesters_state e lines return_args w =
     (let (available, w1) = get_exists e w;
          w2 = logger ''Initialize the requesters.'' w1
      in lines_loop e return_args available lines
           \<lparr>args = [], requesters = [], commands = []\<rparr> w2)"

datatype returned = Args "(string \<times> string \<times> string \<times> string) list" | Requesters "requester list"

definition get_requesters ::
  "env \<Rightarrow> string list \<Rightarrow> bool \<Rightarrow> world \<Rightarrow> (exn + returned) \<times> world" where
  "get_requesters e lines return_args w =
     (case get_requesters_state e lines return_args w of
        (Inl x, w1) \<Rightarrow> (Inl x, w1)
      | (Inr st, w1) \<Rightarrow>
          (Inr (if return_args then Args (args st) else Requesters (requesters st)), w1))"

text \<open>The loop of \<^verbatim>\<open>main\<close> over the requesters, collecting the commands.\<close>

fun run_all :: "env \<Rightarrow> requester list \<Rightarrow> string list \<Rightarrow> world \<Rightarrow> string list \<times> world" where
  "run_all e [] cs w = (cs, w)"
| "run_all e (r # rs) cs w =
     (case run e r False w of
        (c, r1, w1) \<Rightarrow> run_all e rs (cs @ [c @ [NL]]) (logger c w1))"

text \<open>
  \<^verbatim>\<open>main\<close>, from the lines that \<^verbatim>\<open>get_lines\<close> has read. With \<open>prerun\<close> it prints a
  deletion command for every file of the input folder that no requester uses.
\<close>

definition main :: "env \<Rightarrow> string list \<Rightarrow> bool \<Rightarrow> world \<Rightarrow> (exn + unit) \<times> world" where
  "main e lines prerun w =
     (case get_requesters e lines False w of
        (Inl x, w1) \<Rightarrow> (Inl x, w1)
      | (Inr res, w1) \<Rightarrow>
          (let rs = (case res of Requesters rs \<Rightarrow> rs | Args a \<Rightarrow> []) in
           if prerun then
             (let used_filenames = map (\<lambda>r. path_basename e (str_opt (input_filename r))) rs;
                  unused_filename =
                    filter (\<lambda>f. f \<notin> set used_filenames) (listdir e (INPUT_FOLDER e) (files w1));
                  w2 = logger ''Won't use some files. Can use these commands:'' w1
              in (Inr (), foldl (\<lambda>v f. print (''del '' @ [DQ] @ f @ [DQ]) v) w2 unused_filename))
           else
             (case run_all e rs [] w1 of
                (cs, w2) \<Rightarrow>
                  (Inr (), os_system e ''../output/remove_black.bat'' (backup e cs w2)))))"


section \<open>Definitions in the words of the specification\<close>

text \<open>
  The specification describes two steps of the parser in words; these definitions
  follow the words, and are compared below with what the code computes.
  Collapsing keeps one delimiter of every run of delimiters; the output name loses
  every question mark and every single quote, and every double quote becomes a
  single quote.
\<close>

fun squeeze :: "string \<Rightarrow> string" where
  "squeeze [] = []"
| "squeeze (c # cs) = (if c = TAB \<and> startswith cs [TAB] then squeeze cs else c # squeeze cs)"

definition sanitize :: "string \<Rightarrow> string" where
  "sanitize s = map (\<lambda>x. if x = DQ then SQ else x) (filter (\<lambda>x. x \<noteq> CHR ''?'' \<and> x \<noteq> SQ) s)"

text \<open>
  A number of seconds rendered as zero-padded \<^verbatim>\<open>HH:MM:SS\<close>: the hours, the minutes
  of the rest and the seconds of the rest, each in decimal and filled with zeros on
  the left to two characters.
\<close>

definition zero_pad :: "nat \<Rightarrow> string \<Rightarrow> string" where
  "zero_pad k s = replicate (k - length s) CHR ''0'' @ s"

definition hhmmss :: "int \<Rightarrow> string" where
  "hhmmss d = zero_pad 2 (str_nat (nat (d div 3600))) @ '':''
            @ zero_pad 2 (str_nat (nat (d mod 3600 div 60))) @ '':''
            @ zero_pad 2 (str_nat (nat (d mod 60)))"

text \<open>The resize filter that \<^verbatim>\<open>add_resize_option\<close> chooses for a probed dimension string.\<close>

definition resize_filter :: "string \<Rightarrow> string" where
  "resize_filter dims =
     (if contains dims ''1080'' then ''-vf '' @ [DQ] @ ''scale=trunc(iw/2)*2:720'' @ [DQ]
      else ''-vf '' @ [DQ] @ ''scale=trunc(iw/2)*2:trunc(ih/2)*2'' @ [DQ])"

section \<open>A concrete platform\<close>

text \<open>
  For evaluation on concrete inputs: the functions of \<^verbatim>\<open>posixpath\<close>, with \<^verbatim>\<open>/\<close> as
  the only separator. On folders that end with the separator and names without
  backslash or drive letter, \<^verbatim>\<open>ntpath\<close> gives the same results.
\<close>

definition posix_join :: "string \<Rightarrow> string \<Rightarrow> string" where
  "posix_join a b =
     (if startswith b ''/'' then b
      else if a = [] \<or> endswith a ''/'' then a @ b
      else a @ ''/'' @ b)"

definition posix_basename :: "string \<Rightarrow> string" where
  "posix_basename p = rev (takeWhile (\<lambda>c. c \<noteq> CHR ''/'') (rev p))"

definition posix_splitext :: "string \<Rightarrow> string \<times> string" where
  "posix_splitext p =
     (let base = posix_basename p;
          ext = rev (takeWhile (\<lambda>c. c \<noteq> CHR ''.'') (rev base));
          stem = take (length base - length ext - 1) base
      in if CHR ''.'' \<in> set base \<and> (\<exists>c \<in> set stem. c \<noteq> CHR ''.'')
         then (take (length p - length ext - 1) p, CHR ''.'' # ext)
         else (p, []))"

text \<open>
  A platform with the folders \<^verbatim>\<open>in/\<close>, \<^verbatim>\<open>out/\<close> and \<^verbatim>\<open>backup/\<close>, where the index of
  existing outputs is the list \<open>idx\<close>, every download is denied, the probe reports
  \<open>dims\<close>, and the transcoder writes nothing.
\<close>

definition platform :: "string list \<Rightarrow> string \<Rightarrow> env" where
  "platform idx dims =
     \<lparr>INPUT_FOLDER = ''in/'', OUTPUT_FOLDER = ''out/'', BACKUP_FOLDER = ''backup/'',
      path_join = posix_join, path_basename = posix_basename, path_splitext = posix_splitext,
      glob = (\<lambda>pat fs. if pat = ''out//**/*.mkv'' then idx else []),
      listdir = (\<lambda>d fs. []),
      youtube = (\<lambda>url d fs. Denied),
      ffprobe = (\<lambda>cmd fs. Some dims),
      system = (\<lambda>c fs. fs),
      today = ''2026-01-01'',
      repr = join '', ''\<rparr>"

definition disk :: "(string \<times> nat) list \<Rightarrow> world" where
  "disk fl = \<lparr>files = map_of fl, logged = [], invoked = [], written = []\<rparr>"


text \<open>An instruction line of four fields.\<close>

definition job_line :: "string \<Rightarrow> string \<Rightarrow> string \<Rightarrow> string \<Rightarrow> string" where
  "job_line a b c d = a @ [TAB] @ b @ [TAB] @ c @ [TAB] @ d"

text \<open>The output paths of the requests that \<^verbatim>\<open>get_requesters\<close> hands to \<^verbatim>\<open>main\<close>.\<close>

definition queued_outputs :: "exn + returned \<Rightarrow> exn + string list" where
  "queued_outputs res =
     map_sum id (\<lambda>x. case x of Requesters rs \<Rightarrow> map output_filename rs | Args a \<Rightarrow> []) res"


text \<open>
  From one world to a later one of the same run: the commands given to the shell
  and the backups written are the same, and every file that was there is still
  there.
\<close>

definition grows :: "world \<Rightarrow> world \<Rightarrow> bool" where
  "grows w w' = (invoked w' = invoked w \<and> written w' = written w
                 \<and> (\<forall>p. path_exists w p \<longrightarrow> path_exists w' p))"


text \<open>
  The job descriptors of an instruction file, as the loop of \<^verbatim>\<open>get_requesters\<close>
  collects them in \<open>args\<close>, and whether the request built for a descriptor in a
  given world is ready.
\<close>

fun parsed :: "string list \<Rightarrow> (string \<times> string \<times> string \<times> string) list" where
  "parsed [] = []"
| "parsed (ln # rest) =
     (if startswith ln ''#'' then parsed rest
      else if startswith ln ''STOP'' then []
      else
        (let split_line = split (collapse ln) TAB in
         if length split_line \<noteq> 4 then parsed rest
         else (split_line ! 3,
               replace (replace (replace (split_line ! 0) ''?'' []) [SQ] []) [DQ] [SQ],
               split_line ! 1, split_line ! 2) # parsed rest))"


section \<open>The stop line\<close>

lemma process_line_stop:
  "startswith ln ''STOP'' \<Longrightarrow> process_line e ra av ln st w = (Inr (True, st), w)"
  by (cases ln) (auto simp: process_line_def)

lemma lines_loop_stop:
  "startswith ln ''STOP'' \<Longrightarrow>
   lines_loop e ra av (pre @ ln # post) st w = lines_loop e ra av pre st w"
proof (induction pre arbitrary: st w)
  case Nil
  then show ?case by (simp add: process_line_stop)
next
  case (Cons l pre)
  obtain res w1 where pl: "process_line e ra av l st w = (res, w1)"
    by (cases "process_line e ra av l st w")
  show ?case
  proof (cases res)
    case (Inl x)
    then show ?thesis using pl by simp
  next
    case (Inr bs)
    obtain b st1 where bs: "bs = (b, st1)" by (cases bs)
    show ?thesis using pl Inr bs Cons.IH [OF Cons.prems] by (cases b) simp_all
  qed
qed

text \<open>
  Claim C10. A line that starts with \<^verbatim>\<open>STOP\<close>, whatever follows the prefix, ends the
  loop: the step on that line changes neither the state nor the world, and the
  whole run over \<open>pre @ ln # post\<close> returns what the run over \<open>pre\<close> returns, in
  both modes, so neither the line nor any line after it yields a job descriptor or
  a request.
\<close>

theorem stop_prefix_halts:
  assumes "startswith ln ''STOP''"
  shows "process_line e ra av ln st w = (Inr (True, st), w)
       \<and> get_requesters e (pre @ ln # post) ra w = get_requesters e pre ra w"
  using assms
  by (simp add: process_line_stop get_requesters_def get_requesters_state_def lines_loop_stop
      split: prod.splits)

theorem stop_prefix_halts_witness:
  "startswith ''STOPPED'' ''STOP''
   \<and> fst (get_requesters (platform [] [])
           [job_line ''a.mkv'' ''00:00:00'' ''00:00:00'' ''s.mkv'', ''STOPPED'',
            job_line ''b.mkv'' ''00:00:00'' ''00:00:00'' ''s.mkv'']
           True (disk []))
     = Inr (Args [(''s.mkv'', ''a.mkv'', ''00:00:00'', ''00:00:00'')])"
proof -
  let ?l1 = "job_line ''a.mkv'' ''00:00:00'' ''00:00:00'' ''s.mkv''"
  let ?l2 = "job_line ''b.mkv'' ''00:00:00'' ''00:00:00'' ''s.mkv''"
  have a: "startswith ''STOPPED'' ''STOP''" by simp
  have b: "get_requesters (platform [] []) ([?l1] @ ''STOPPED'' # [?l2]) True (disk [])
           = get_requesters (platform [] []) [?l1] True (disk [])"
    using stop_prefix_halts [OF a] by blast
  have c: "fst (get_requesters (platform [] []) [?l1] True (disk []))
           = Inr (Args [(''s.mkv'', ''a.mkv'', ''00:00:00'', ''00:00:00'')])"
    by code_simp
  have d: "[?l1] @ ''STOPPED'' # [?l2] = [?l1, ''STOPPED'', ?l2]" by (simp only: append.simps)
  show ?thesis using a b c unfolding d by (simp only: simp_thms)
qed


section \<open>The parser\<close>

lemma replace_Nil: "old \<noteq> [] \<Longrightarrow> replace [] old new = []"
  by (simp add: replace.simps)

lemma replace_Cons:
  "old \<noteq> [] \<Longrightarrow> replace (x # xs) old new =
     (if startswith (x # xs) old then new @ replace (drop (length old) (x # xs)) old new
      else x # replace xs old new)"
  by (subst replace.simps) simp

lemma replace_char_delete: "replace s [c] [] = filter (\<lambda>x. x \<noteq> c) s"
  by (induction s) (simp_all add: replace_Nil replace_Cons)

lemma replace_char_subst: "replace s [c] [d] = map (\<lambda>x. if x = c then d else x) s"
  by (induction s) (simp_all add: replace_Nil replace_Cons)

lemma replace_sanitize: "replace (replace (replace s ''?'' []) [SQ] []) [DQ] [SQ] = sanitize s"
  by (simp add: replace_char_delete replace_char_subst sanitize_def conj_commute)

lemma squeeze_id: "\<not> contains s [TAB, TAB] \<Longrightarrow> squeeze s = s"
  by (induction s) (auto split: if_splits)

lemma startswith_replace_tabs:
  "startswith (replace s [TAB, TAB] [TAB]) [TAB] = startswith s [TAB]"
  by (cases s) (auto simp: replace_Nil replace_Cons)

lemma squeeze_replace:
  "old = [TAB, TAB] \<Longrightarrow> new = [TAB] \<Longrightarrow> squeeze (replace s old new) = squeeze s"
proof (induction s old new rule: replace.induct)
  case (1 s old new)
  show ?case
  proof (cases s)
    case Nil
    then show ?thesis using "1.prems" by (simp add: replace_Nil)
  next
    case (Cons x xs)
    show ?thesis
    proof (cases "startswith s old")
      case True
      then obtain s' where s: "s = TAB # TAB # s'"
        using Cons "1.prems" by (cases xs) auto
      have ih: "squeeze (replace s' old new) = squeeze s'"
        using "1.IH"(1) [OF _ _ True] "1.prems" s by simp
      show ?thesis
        using ih s "1.prems" startswith_replace_tabs [of s']
        by (simp add: replace_Cons)
    next
      case False
      have ih: "squeeze (replace xs old new) = squeeze xs"
        using "1.IH"(2) [OF _ _ False] "1.prems" Cons by simp
      show ?thesis
        using ih Cons False "1.prems" startswith_replace_tabs [of xs]
        by (auto simp: replace_Cons)
    qed
  qed
qed

lemma collapse_squeeze: "collapse s = squeeze s"
proof (induction s rule: collapse.induct)
  case (1 ln)
  show ?case
  proof (cases "contains ln [TAB, TAB]")
    case True
    then show ?thesis using "1.IH" by (subst collapse.simps) (simp add: squeeze_replace)
  next
    case False
    then show ?thesis by (subst collapse.simps) (simp add: squeeze_id)
  qed
qed

text \<open>
  Claim C6, as stated: every line that splits into four fields after collapsing
  yields one job descriptor. It fails on a comment line with four fields, which
  yields none.
\<close>

theorem comment_line_four_fields_counterexample:
  "split (squeeze (job_line ''#a.mkv'' ''00:00:00'' ''00:00:00'' ''s.mkv'')) TAB
     = [''#a.mkv'', ''00:00:00'', ''00:00:00'', ''s.mkv'']
   \<and> fst (get_requesters (platform [] [])
           [job_line ''#a.mkv'' ''00:00:00'' ''00:00:00'' ''s.mkv''] True (disk []))
     = Inr (Args [])"
  by code_simp

text \<open>
  Claim C6, amended: a line that starts neither with \<^verbatim>\<open>#\<close> nor with \<^verbatim>\<open>STOP\<close> and
  that splits into exactly four fields after its runs of tabs are collapsed adds
  exactly one job descriptor, made of the four fields with the output name
  sanitized; a file of that one line yields exactly that descriptor.
\<close>

theorem parser_four_fields:
  assumes "\<not> startswith ln ''#''" and "\<not> startswith ln ''STOP''"
    and "split (squeeze ln) TAB = [a, b, c, d]"
  shows "process_line e True av ln st w
           = (Inr (False, st\<lparr>args := args st @ [(d, sanitize a, b, c)]\<rparr>), w)
       \<and> fst (get_requesters e [ln] True w) = Inr (Args [(d, sanitize a, b, c)])"
proof -
  have step: "\<And>st w. process_line e True av ln st w
           = (Inr (False, st\<lparr>args := args st @ [(d, sanitize a, b, c)]\<rparr>), w)" for av
    using assms by (simp add: process_line_def collapse_squeeze replace_sanitize)
  show ?thesis
    by (simp add: step get_requesters_def get_requesters_state_def split: prod.splits)
qed

theorem parser_four_fields_witness:
  "\<not> startswith (''a?b'' @ [DQ] @ ''c.mkv'' @ [TAB, TAB] @ ''00:16:41'' @ [TAB] @ ''00:22:35''
                   @ [TAB] @ ''s.mkv'') ''#''
   \<and> \<not> startswith (''a?b'' @ [DQ] @ ''c.mkv'' @ [TAB, TAB] @ ''00:16:41'' @ [TAB] @ ''00:22:35''
                     @ [TAB] @ ''s.mkv'') ''STOP''
   \<and> split (squeeze (''a?b'' @ [DQ] @ ''c.mkv'' @ [TAB, TAB] @ ''00:16:41'' @ [TAB] @ ''00:22:35''
                      @ [TAB] @ ''s.mkv'')) TAB
       = [''a?b'' @ [DQ] @ ''c.mkv'', ''00:16:41'', ''00:22:35'', ''s.mkv'']
   \<and> fst (get_requesters (platform [] [])
           [''a?b'' @ [DQ] @ ''c.mkv'' @ [TAB, TAB] @ ''00:16:41'' @ [TAB] @ ''00:22:35''
            @ [TAB] @ ''s.mkv''] True (disk []))
       = Inr (Args [(''s.mkv'', ''ab'' @ [SQ] @ ''c.mkv'', ''00:16:41'', ''00:22:35'')])"
proof -
  let ?L = "''a?b'' @ [DQ] @ ''c.mkv'' @ [TAB, TAB] @ ''00:16:41'' @ [TAB] @ ''00:22:35''
            @ [TAB] @ ''s.mkv''"
  have h1: "\<not> startswith ?L ''#''" by simp
  have h2: "\<not> startswith ?L ''STOP''" by simp
  have h3: "split (squeeze ?L) TAB = [''a?b'' @ [DQ] @ ''c.mkv'', ''00:16:41'', ''00:22:35'', ''s.mkv'']"
    by simp
  have s: "sanitize (''a?b'' @ [DQ] @ ''c.mkv'') = ''ab'' @ [SQ] @ ''c.mkv''"
    by (simp add: sanitize_def)
  show ?thesis
    using parser_four_fields [OF h1 h2 h3, of "platform [] []" "[]" "\<lparr>args = [], requesters = [], commands = []\<rparr>" "disk []"]
    unfolding s using h1 h2 h3 by blast
qed


section \<open>The request builder\<close>

lemma path_exists_logger [simp]:
  "path_exists (logger m w) p = path_exists w p"
  "path_exists (logger_warning m w) p = path_exists w p"
  "path_exists (logger_error m w) p = path_exists w p"
  "path_exists (print m w) p = path_exists w p"
  by (simp_all add: path_exists_def logger_def logger_warning_def logger_error_def print_def)

lemma get_input_from_youtube_Inr:
  assumes "get_input_from_youtube e url w = (Inr f, w')"
  shows "path_exists w' f"
  using assms
  by (auto simp: get_input_from_youtube_def ExistingFilename_def Let_def path_exists_def
      logger_def split: fetched.splits if_splits)

lemma get_input_from_youtube_exn:
  assumes "get_input_from_youtube e url w = (Inl x, w')"
  shows "x = BotDetection \<or> (\<exists>m. x = DownloadError m)"
  using assms
  by (auto simp: get_input_from_youtube_def ExistingFilename_def Let_def path_exists_def
      logger_def split: fetched.splits if_splits)

lemma set_input_file_Inr:
  assumes "set_input_file e self inp w = (Inr r, w')"
  shows "\<exists>p. r = self\<lparr>input_filename := Some p\<rparr> \<and> path_exists w' p"
proof (cases "contains inp ''youtube.com''")
  case False
  then show ?thesis using assms
    by (auto simp: set_input_file_def ExistingFilename_def Let_def split: if_splits)
next
  case True
  obtain res w1 where g: "get_input_from_youtube e inp w = (res, w1)"
    by (cases "get_input_from_youtube e inp w")
  show ?thesis
  proof (cases res)
    case (Inr f)
    then show ?thesis using assms True g get_input_from_youtube_Inr [of e inp w f w1]
      by (auto simp: set_input_file_def)
  next
    case (Inl x)
    then show ?thesis using assms True g
      by (cases x) (auto simp: set_input_file_def ExistingFilename_def Let_def split: if_splits)
  qed
qed

lemma set_input_file_exn:
  assumes "set_input_file e self inp w = (Inl x, w')"
  shows "(\<exists>m. x = AssertionError m) \<or> (\<exists>m. x = DownloadError m)"
proof (cases "contains inp ''youtube.com''")
  case False
  then show ?thesis using assms
    by (auto simp: set_input_file_def ExistingFilename_def Let_def split: if_splits)
next
  case True
  obtain res w1 where g: "get_input_from_youtube e inp w = (res, w1)"
    by (cases "get_input_from_youtube e inp w")
  show ?thesis
  proof (cases res)
    case (Inr f)
    then show ?thesis using assms True g by (auto simp: set_input_file_def)
  next
    case (Inl y)
    then show ?thesis using assms True g get_input_from_youtube_exn [of e inp w y w1]
      by (cases y) (auto simp: set_input_file_def ExistingFilename_def Let_def split: if_splits)
  qed
qed

lemma add_resize_option_Inr:
  "add_resize_option e self w = Inr r \<Longrightarrow>
   \<exists>v. r = self\<lparr>video_options := video_options self @ [v]\<rparr>"
  by (auto simp: add_resize_option_def Let_def split: option.splits if_splits)

lemma add_resize_option_exn:
  "add_resize_option e self w = Inl x \<Longrightarrow> \<exists>m. x = OSError m"
  by (auto simp: add_resize_option_def Let_def split: option.splits if_splits)

lemma set_output_file_Inr:
  assumes "set_output_file e self out w = Inr r"
  shows "input_filename r = input_filename self \<and> ready r = ready self
       \<and> start r = start self \<and> duration r = duration self
       \<and> output_filename r = path_join e (OUTPUT_FOLDER e) out"
  using assms
  by (auto simp: set_output_file_def Let_def split: if_splits sum.splits
      dest!: add_resize_option_Inr)

lemma set_output_file_exn:
  "set_output_file e self out w = Inl x \<Longrightarrow> \<exists>m. x = OSError m"
  by (auto simp: set_output_file_def Let_def split: if_splits sum.splits
      dest: add_resize_option_exn)

lemma set_start_fields [simp]:
  "input_filename (set_start r s) = input_filename r"
  "output_filename (set_start r s) = output_filename r"
  "ready (set_start r s) = ready r"
  "duration (set_start r s) = duration r"
  "options (set_start r s) = options r"
  by (simp_all add: set_start_def)

lemma set_duration_Inr:
  assumes "set_duration e self s en = Inr r"
  shows "input_filename r = input_filename self \<and> ready r = ready self
       \<and> output_filename r = output_filename self \<and> start r = start self
       \<and> options r = options self
       \<and> (en = ''00:00:00'' \<or> (\<exists>a b. to_seconds s = Inr a \<and> to_seconds en = Inr b \<and> 0 < b - a))"
  using assms
  by (auto simp: set_duration_def Let_def split: if_splits sum.splits)

lemma set_duration_nonpositive:
  assumes "en \<noteq> ''00:00:00''" and "to_seconds s = Inr a" and "to_seconds en = Inr b"
    and "b - a \<le> 0"
  shows "set_duration e r s en
           = Inl (AssertionError (path_basename e (output_filename r) @ '': Check duration.''))"
  using assms by (simp add: set_duration_def)

lemma str_nat_small: "n < 10 \<Longrightarrow> str_nat n = [digit_char n]"
  by (subst str_nat.simps) simp

lemma length_str_nat_pos: "0 < length (str_nat n)"
  by (subst str_nat.simps) simp

lemma length_str_nat_big: "10 \<le> n \<Longrightarrow> 2 \<le> length (str_nat n)"
  using length_str_nat_pos [of "n div 10"] by (subst str_nat.simps) (simp add: Suc_le_eq)

lemma fmt_02d_zero_pad: "0 \<le> n \<Longrightarrow> fmt_02d n = zero_pad 2 (str_nat (nat n))"
proof (cases "n < 10")
  case True
  assume "0 \<le> n"
  then show ?thesis using True
    by (simp add: fmt_02d_def zero_pad_def str_nat_small numeral_2_eq_2)
next
  case False
  assume "0 \<le> n"
  then have "2 \<le> length (str_nat (nat n))" using False by (intro length_str_nat_big) simp
  then show ?thesis using False by (simp add: fmt_02d_def zero_pad_def)
qed









lemma hms_bounds:
  assumes "0 \<le> (d::int)"
  shows "0 \<le> d div 3600" and "0 \<le> d mod 3600 div 60" and "d mod 3600 div 60 < 100"
    and "0 \<le> d mod 60" and "d mod 60 < 100"
    and "d < 360000 \<Longrightarrow> d div 3600 < 100"
proof -
  let ?x = "d mod 3600"
  have x: "0 \<le> ?x" "?x < 3600" by simp_all
  have dx: "d div 3600 * 3600 + ?x = d" by simp
  have xx: "?x div 60 * 60 + ?x mod 60 = ?x" by simp
  have x60: "0 \<le> ?x mod 60" by simp
  show "0 \<le> d div 3600" using assms by (simp add: pos_imp_zdiv_nonneg_iff)
  show "0 \<le> d mod 3600 div 60" using x by (simp add: pos_imp_zdiv_nonneg_iff)
  show "d mod 3600 div 60 < 100" using x xx x60 by linarith
  show "0 \<le> d mod 60" by simp
  have "d mod 60 < 60" by simp
  then show "d mod 60 < 100" by linarith
  show "d div 3600 < 100" if "d < 360000" using that dx x by linarith
qed

lemma code_render_hhmmss:
  assumes "0 \<le> d"
  shows "fmt_02d (d div 3600) @ '':'' @ fmt_02d (d mod 3600 div 60) @ '':'' @ fmt_02d (d mod 60)
           = hhmmss d"
proof -
  show ?thesis
    using hms_bounds(1,2,4) [OF assms] by (simp add: hhmmss_def fmt_02d_zero_pad)
qed


lemma set_duration_positive:
  assumes "en \<noteq> ''00:00:00''" and "to_seconds s = Inr a" and "to_seconds en = Inr b"
    and "0 < b - a"
  shows "set_duration e r s en = Inr (r\<lparr>duration := ''-t '' @ hhmmss (b - a)\<rparr>)"
proof -
  have "0 \<le> b - a" using assms by simp
  from code_render_hhmmss [OF this] show ?thesis
    using assms by (simp add: set_duration_def Let_def)
qed

lemma Requester_ready:
  assumes "Requester e inp out s en w = (Inr r, w')" and "ready r"
  shows "(\<exists>r1 r2 r3.
            set_input_file e (fresh out) inp w = (Inr r1, w')
          \<and> set_output_file e r1 out w' = Inr r2
          \<and> set_duration e (set_start r2 s) s en = Inr r3
          \<and> r = r3\<lparr>ready := True\<rparr>)
       \<and> (\<exists>p. input_filename r = Some p \<and> path_exists w' p)
       \<and> output_filename r = path_join e (OUTPUT_FOLDER e) out
       \<and> (en = ''00:00:00'' \<or> (\<exists>a b. to_seconds s = Inr a \<and> to_seconds en = Inr b \<and> 0 < b - a))
       \<and> \<not> startswith out ''-''"
proof -
  have nr: "\<not> ready (fresh out)" by (simp add: fresh_def)
  obtain res1 w1 where i: "set_input_file e (fresh out) inp w = (res1, w1)"
    by (cases "set_input_file e (fresh out) inp w")
  show ?thesis
  proof (cases res1)
    case (Inl x)
    then show ?thesis using assms i nr
      by (cases x) (auto simp: Requester_def)
  next
    case (Inr r1)
    from set_input_file_Inr [OF i [unfolded Inr]]
    obtain p where p: "r1 = (fresh out)\<lparr>input_filename := Some p\<rparr>" "path_exists w1 p" by blast
    have nr1: "\<not> ready r1" using p nr by simp
    show ?thesis
    proof (cases "set_output_file e r1 out w1")
      case (Inl x)
      then show ?thesis using assms i Inr nr1
        by (cases x) (auto simp: Requester_def)
    next
      case r2: (Inr r2)
      note o = set_output_file_Inr [OF r2]
      show ?thesis
      proof (cases "set_duration e (set_start r2 s) s en")
        case (Inl x)
        then show ?thesis using assms i Inr r2 nr1 o
          by (cases x) (auto simp: Requester_def)
      next
        case r3: (Inr r3)
        note d = set_duration_Inr [OF r3]
        have w: "w' = w1" and r: "r = r3\<lparr>ready := True\<rparr>" and dash: "\<not> startswith out ''-''"
          using assms i Inr r2 r3 by (auto simp: Requester_def Let_def split: if_splits)
        show ?thesis
          using i Inr r2 r3 w r dash d o p by auto
      qed
    qed
  qed
qed

lemma Requester_options:
  assumes R: "Requester e inp out s en w = (Inr q, w')" and rd: "ready q"
  shows "start q = (if s = ''00:00:00'' then [] else ''-ss '' @ s)
        \<and> (en = ''00:00:00'' \<longrightarrow> duration q = [])
        \<and> (en \<noteq> ''00:00:00'' \<longrightarrow>
             (\<exists>a b. to_seconds s = Inr a \<and> to_seconds en = Inr b \<and> 0 < b - a
                    \<and> duration q = ''-t '' @ hhmmss (b - a)))"
proof -
  from Requester_ready [OF R rd] obtain r1 r2 r3 where
    i: "set_input_file e (fresh out) inp w = (Inr r1, w')" and
    o: "set_output_file e r1 out w' = Inr r2" and
    d: "set_duration e (set_start r2 s) s en = Inr r3" and
    q: "q = r3\<lparr>ready := True\<rparr>" by blast
  from set_input_file_Inr [OF i] have r1: "start r1 = []" "duration r1 = []"
    by (auto simp: fresh_def)
  from set_output_file_Inr [OF o] r1 have r2: "start r2 = []" "duration r2 = []" by simp_all
  have st: "start (set_start r2 s) = (if s = ''00:00:00'' then [] else ''-ss '' @ s)"
    using r2 by (simp add: set_start_def)
  from set_duration_Inr [OF d] have s3: "start r3 = start (set_start r2 s)" by simp
  have c1: "start q = (if s = ''00:00:00'' then [] else ''-ss '' @ s)"
    using q s3 st by simp
  have c2: "duration q = []" if "en = ''00:00:00''"
  proof -
    have "r3 = set_start r2 s" using that d by (simp add: set_duration_def)
    then show ?thesis using q r2 by simp
  qed
  have c3: "\<exists>a b. to_seconds s = Inr a \<and> to_seconds en = Inr b \<and> 0 < b - a
                  \<and> duration q = ''-t '' @ hhmmss (b - a)" if ne: "en \<noteq> ''00:00:00''"
  proof -
    from set_duration_Inr [OF d] ne obtain a b where
      ab: "to_seconds s = Inr a" "to_seconds en = Inr b" "0 < b - a" by blast
    from set_duration_positive [OF ne ab, of e "set_start r2 s"] d
    have "r3 = (set_start r2 s)\<lparr>duration := ''-t '' @ hhmmss (b - a)\<rparr>" by simp
    then show ?thesis using ab q by auto
  qed
  show ?thesis using c1 c2 c3 by blast
qed

lemma Requester_nonpositive:
  assumes "en \<noteq> ''00:00:00''" and "to_seconds s = Inr a" and "to_seconds en = Inr b"
    and "b - a \<le> 0"
  shows "case fst (Requester e inp out s en w) of
           Inr r' \<Rightarrow> \<not> ready r' \<and> duration r' = []
         | Inl x \<Rightarrow> (\<exists>m. x = DownloadError m \<or> x = OSError m)"
proof -
  have nr: "\<not> ready (fresh out)" "duration (fresh out) = []" by (simp_all add: fresh_def)
  obtain res1 w1 where i: "set_input_file e (fresh out) inp w = (res1, w1)"
    by (cases "set_input_file e (fresh out) inp w")
  show ?thesis
  proof (cases res1)
    case (Inl x)
    then show ?thesis using i nr set_input_file_exn [OF i [unfolded Inl]]
      by (auto simp: Requester_def)
  next
    case (Inr r1)
    from set_input_file_Inr [OF i [unfolded Inr]]
    obtain p where p: "r1 = (fresh out)\<lparr>input_filename := Some p\<rparr>" by blast
    have nr1: "\<not> ready r1" "duration r1 = []" using p nr by simp_all
    show ?thesis
    proof (cases "set_output_file e r1 out w1")
      case (Inl x)
      then show ?thesis using i Inr set_output_file_exn [OF Inl]
        by (auto simp: Requester_def)
    next
      case r2: (Inr r2)
      note o = set_output_file_Inr [OF r2]
      have "set_duration e (set_start r2 s) s en
           = Inl (AssertionError (path_basename e (output_filename (set_start r2 s)) @ '': Check duration.''))"
        by (rule set_duration_nonpositive [OF assms])
      then show ?thesis using i Inr r2 o nr1
        by (auto simp: Requester_def)
    qed
  qed
qed

text \<open>
  Claim C8. A request that \<^verbatim>\<open>__init__\<close> leaves ready went through the three steps
  without an exception: the input was resolved to a path that exists in the file
  system at that moment, the output path was built from the output folder and the
  name, and the time window is absent or positive; and the sanitized output name
  does not start with \<^verbatim>\<open>-\<close>.
\<close>

theorem ready_invariant:
  assumes "Requester e inp out s en w = (Inr r, w')" and "ready r"
  shows "(\<exists>r1 r2 r3.
            set_input_file e (fresh out) inp w = (Inr r1, w')
          \<and> set_output_file e r1 out w' = Inr r2
          \<and> set_duration e (set_start r2 s) s en = Inr r3
          \<and> r = r3\<lparr>ready := True\<rparr>)
       \<and> (\<exists>p. input_filename r = Some p \<and> path_exists w' p)
       \<and> output_filename r = path_join e (OUTPUT_FOLDER e) out
       \<and> (en = ''00:00:00'' \<or> (\<exists>a b. to_seconds s = Inr a \<and> to_seconds en = Inr b \<and> 0 < b - a))
       \<and> \<not> startswith out ''-''"
  using Requester_ready [OF assms] .

theorem ready_invariant_witness:
  "ready (projr (fst (Requester (platform [] ''1920x1080'') ''source.mkv'' ''A/Clip.mkv''
                        ''00:16:41'' ''00:22:35'' (disk [(''in/source.mkv'', 5000)]))))
   \<and> input_filename (projr (fst (Requester (platform [] ''1920x1080'') ''source.mkv''
                        ''A/Clip.mkv'' ''00:16:41'' ''00:22:35'' (disk [(''in/source.mkv'', 5000)]))))
       = Some ''in/source.mkv''
   \<and> path_exists (snd (Requester (platform [] ''1920x1080'') ''source.mkv'' ''A/Clip.mkv''
                        ''00:16:41'' ''00:22:35'' (disk [(''in/source.mkv'', 5000)]))) ''in/source.mkv''
   \<and> \<not> startswith ''A/Clip.mkv'' ''-''"
proof -
  let ?R = "Requester (platform [] ''1920x1080'') ''source.mkv'' ''A/Clip.mkv''
              ''00:16:41'' ''00:22:35'' (disk [(''in/source.mkv'', 5000)])"
  have a: "\<not> isl (fst ?R)" by code_simp
  have b: "ready (projr (fst ?R))" by code_simp
  have c: "input_filename (projr (fst ?R)) = Some ''in/source.mkv''" by code_simp
  have eq: "?R = (Inr (projr (fst ?R)), snd ?R)"
    using a by (cases "fst ?R") (auto simp: prod_eq_iff)
  from ready_invariant [OF eq b] c b show ?thesis by auto
qed

text \<open>
  Claim C9. When the end time is not the sentinel, both time strings are read, and
  the end is not after the start, \<^verbatim>\<open>set_duration\<close> raises the assertion whose
  message is the base name of the output file followed by \<^verbatim>\<open>: Check duration.\<close>;
  the constructor then returns a request that is not ready and has no duration
  option, unless the download or the probe had already failed.
\<close>

theorem nonpositive_duration_rejected:
  assumes "en \<noteq> ''00:00:00''" and "to_seconds s = Inr a" and "to_seconds en = Inr b"
    and "b - a \<le> 0"
  shows "set_duration e r s en
           = Inl (AssertionError (path_basename e (output_filename r) @ '': Check duration.''))
       \<and> (case fst (Requester e inp out s en w) of
             Inr r' \<Rightarrow> \<not> ready r' \<and> duration r' = []
           | Inl x \<Rightarrow> (\<exists>m. x = DownloadError m \<or> x = OSError m))"
proof -
  have req: "case fst (Requester e inp out s en w) of
             Inr r' \<Rightarrow> \<not> ready r' \<and> duration r' = []
           | Inl x \<Rightarrow> (\<exists>m. x = DownloadError m \<or> x = OSError m)"
    by (rule Requester_nonpositive [OF assms])
  show ?thesis using set_duration_nonpositive [OF assms] req by simp
qed

theorem nonpositive_duration_rejected_witness:
  "''00:00:05'' \<noteq> ''00:00:00'' \<and> to_seconds ''00:00:05'' = Inr 5 \<and> (5::int) - 5 \<le> 0
   \<and> set_duration (platform [] []) ((fresh ''a.mp3'')\<lparr>output_filename := ''out/a.mp3''\<rparr>)
         ''00:00:05'' ''00:00:05''
       = Inl (AssertionError ''a.mp3: Check duration.'')
   \<and> \<not> isl (fst (Requester (platform [] []) ''s.mkv'' ''a.mp3'' ''00:00:05'' ''00:00:05''
                      (disk [(''in/s.mkv'', 5000)])))
   \<and> \<not> ready (projr (fst (Requester (platform [] []) ''s.mkv'' ''a.mp3'' ''00:00:05''
                      ''00:00:05'' (disk [(''in/s.mkv'', 5000)]))))"
proof -
  let ?R = "Requester (platform [] []) ''s.mkv'' ''a.mp3'' ''00:00:05'' ''00:00:05''
              (disk [(''in/s.mkv'', 5000)])"
  have h1: "''00:00:05'' \<noteq> ''00:00:00''" by simp
  have h2: "to_seconds ''00:00:05'' = Inr 5" by code_simp
  have h3: "(5::int) - 5 \<le> 0" by simp
  have n: "path_basename (platform [] [])
             (output_filename ((fresh ''a.mp3'')\<lparr>output_filename := ''out/a.mp3''\<rparr>))
           @ '': Check duration.'' = ''a.mp3: Check duration.''"
    by code_simp
  have a: "\<not> isl (fst ?R)" by code_simp
  note t = nonpositive_duration_rejected [OF h1 h2 h2 h3,
      of "platform [] []" "(fresh ''a.mp3'')\<lparr>output_filename := ''out/a.mp3''\<rparr>"
         "''s.mkv''" "''a.mp3''" "disk [(''in/s.mkv'', 5000)]"]
  have r: "\<not> ready (projr (fst ?R))"
    using t a by (cases "fst ?R") auto
  show ?thesis using h1 h2 h3 a r t unfolding n by blast
qed




text \<open>
  Claim C5. The options follow from the end of the output path. With \<^verbatim>\<open>.mp3\<close> they
  are the quiet flag, the two audio options and a title tag, the title being the base
  name of the output path without its extension. With \<^verbatim>\<open>.mkv\<close>, when the probe
  reports \<open>dims\<close>, they are the quiet flag, the ten video options and one resize
  filter, the one with the height 720 when \<open>dims\<close> contains \<^verbatim>\<open>1080\<close> and the one
  with even width and height otherwise; no other option starts with \<^verbatim>\<open>-vf\<close>. With
  any other end only the quiet flag is there.
\<close>

theorem option_selection:
  "(endswith (path_join e (OUTPUT_FOLDER e) out) ''.mp3'' \<longrightarrow>
      (\<exists>r. set_output_file e ((fresh out)\<lparr>input_filename := i\<rparr>) out w = Inr r
           \<and> output_filename r = path_join e (OUTPUT_FOLDER e) out
           \<and> options r = [''-v quiet'', ''-codec:a libmp3lame'', ''-qscale:a 3'',
                           ''-metadata title='' @ [DQ]
                           @ path_basename e (fst (path_splitext e (path_join e (OUTPUT_FOLDER e) out)))
                           @ [DQ]]))
   \<and> (\<not> endswith (path_join e (OUTPUT_FOLDER e) out) ''.mp3'' \<longrightarrow>
      endswith (path_join e (OUTPUT_FOLDER e) out) ''.mkv'' \<longrightarrow>
      ffprobe e (probe_command ((fresh out)\<lparr>input_filename := i\<rparr>)) (files w) = Some dims \<longrightarrow>
      (\<exists>r. set_output_file e ((fresh out)\<lparr>input_filename := i\<rparr>) out w = Inr r
           \<and> output_filename r = path_join e (OUTPUT_FOLDER e) out
           \<and> options r = [''-v quiet'', ''-c:v libsvtav1'', ''-c:s copy'', ''-c:a copy'',
                           ''-map 0:a'', ''-map 0:v:0'', ''-map 0:s?'', ''-force_key_frames 0'',
                           ''-crf 32'', ''-threads 3'', ''-pix_fmt yuv420p10le'',
                           resize_filter dims]
           \<and> length (filter (\<lambda>x. startswith x ''-vf'') (options r)) = 1))
   \<and> (\<not> endswith (path_join e (OUTPUT_FOLDER e) out) ''.mp3'' \<longrightarrow>
      \<not> endswith (path_join e (OUTPUT_FOLDER e) out) ''.mkv'' \<longrightarrow>
      (\<exists>r. set_output_file e ((fresh out)\<lparr>input_filename := i\<rparr>) out w = Inr r
           \<and> output_filename r = path_join e (OUTPUT_FOLDER e) out
           \<and> options r = [''-v quiet'']))"
  by (simp add: set_output_file_def add_resize_option_def fresh_def probe_command_def
      resize_filter_def Let_def)

theorem option_selection_witness:
  "endswith (path_join (platform [] ''1920x1080'') (OUTPUT_FOLDER (platform [] ''1920x1080''))
               ''A/My Song.mp3'') ''.mp3''
   \<and> map_sum id options
        (set_output_file (platform [] ''1920x1080'')
           ((fresh ''A/My Song.mp3'')\<lparr>input_filename := Some ''in/s.mkv''\<rparr>) ''A/My Song.mp3''
           (disk []))
       = Inr [''-v quiet'', ''-codec:a libmp3lame'', ''-qscale:a 3'',
              ''-metadata title='' @ [DQ] @ ''My Song'' @ [DQ]]
   \<and> endswith (path_join (platform [] ''1920x1080'') (OUTPUT_FOLDER (platform [] ''1920x1080''))
               ''A/Clip.mkv'') ''.mkv''
   \<and> map_sum id options
        (set_output_file (platform [] ''1920x1080'')
           ((fresh ''A/Clip.mkv'')\<lparr>input_filename := Some ''in/s.mkv''\<rparr>) ''A/Clip.mkv''
           (disk []))
       = Inr [''-v quiet'', ''-c:v libsvtav1'', ''-c:s copy'', ''-c:a copy'',
              ''-map 0:a'', ''-map 0:v:0'', ''-map 0:s?'', ''-force_key_frames 0'',
              ''-crf 32'', ''-threads 3'', ''-pix_fmt yuv420p10le'',
              ''-vf '' @ [DQ] @ ''scale=trunc(iw/2)*2:720'' @ [DQ]]
   \<and> map_sum id options
        (set_output_file (platform [] ''1920x1080'')
           ((fresh ''A/Clip.avi'')\<lparr>input_filename := Some ''in/s.mkv''\<rparr>) ''A/Clip.avi''
           (disk []))
       = Inr [''-v quiet'']"
proof -
  let ?E = "platform [] ''1920x1080''"
  have h1: "endswith (path_join ?E (OUTPUT_FOLDER ?E) ''A/My Song.mp3'') ''.mp3''"
    by code_simp
  have t1: "path_basename ?E (fst (path_splitext ?E (path_join ?E (OUTPUT_FOLDER ?E) ''A/My Song.mp3'')))
            = ''My Song''"
    by code_simp
  have h2: "\<not> endswith (path_join ?E (OUTPUT_FOLDER ?E) ''A/Clip.mkv'') ''.mp3''"
    and h3: "endswith (path_join ?E (OUTPUT_FOLDER ?E) ''A/Clip.mkv'') ''.mkv''"
    by code_simp+
  have h4: "ffprobe ?E (probe_command ((fresh ''A/Clip.mkv'')\<lparr>input_filename := Some ''in/s.mkv''\<rparr>))
              (files (disk [])) = Some ''1920x1080''"
    by (simp add: platform_def)
  have t2: "resize_filter ''1920x1080'' = ''-vf '' @ [DQ] @ ''scale=trunc(iw/2)*2:720'' @ [DQ]"
    by code_simp
  have h5: "\<not> endswith (path_join ?E (OUTPUT_FOLDER ?E) ''A/Clip.avi'') ''.mp3''"
    and h6: "\<not> endswith (path_join ?E (OUTPUT_FOLDER ?E) ''A/Clip.avi'') ''.mkv''"
    by code_simp+
  have c1: "map_sum id options
        (set_output_file ?E ((fresh ''A/My Song.mp3'')\<lparr>input_filename := Some ''in/s.mkv''\<rparr>)
           ''A/My Song.mp3'' (disk []))
       = Inr [''-v quiet'', ''-codec:a libmp3lame'', ''-qscale:a 3'',
              ''-metadata title='' @ [DQ] @ ''My Song'' @ [DQ]]"
    using option_selection [where e = ?E and out = "''A/My Song.mp3''" and i = "Some ''in/s.mkv''"
        and w = "disk []"] h1 unfolding t1 by auto
  have c2: "map_sum id options
        (set_output_file ?E ((fresh ''A/Clip.mkv'')\<lparr>input_filename := Some ''in/s.mkv''\<rparr>)
           ''A/Clip.mkv'' (disk []))
       = Inr [''-v quiet'', ''-c:v libsvtav1'', ''-c:s copy'', ''-c:a copy'',
              ''-map 0:a'', ''-map 0:v:0'', ''-map 0:s?'', ''-force_key_frames 0'',
              ''-crf 32'', ''-threads 3'', ''-pix_fmt yuv420p10le'',
              ''-vf '' @ [DQ] @ ''scale=trunc(iw/2)*2:720'' @ [DQ]]"
    using option_selection [where e = ?E and out = "''A/Clip.mkv''" and i = "Some ''in/s.mkv''"
        and w = "disk []" and dims = "''1920x1080''"] h2 h3 h4 unfolding t2 by auto
  have c3: "map_sum id options
        (set_output_file ?E ((fresh ''A/Clip.avi'')\<lparr>input_filename := Some ''in/s.mkv''\<rparr>)
           ''A/Clip.avi'' (disk []))
       = Inr [''-v quiet'']"
    using option_selection [where e = ?E and out = "''A/Clip.avi''" and i = "Some ''in/s.mkv''"
        and w = "disk []"] h5 h6 by auto
  show ?thesis using h1 c1 h3 c2 c3 by blast
qed

text \<open>
  Claim C7. The command is the tool name, the seek option, \<^verbatim>\<open>-i\<close> with the quoted
  input path, the duration option, the options joined by single spaces and the
  quoted output path, in this order; \<^verbatim>\<open>run\<close> stores it and returns it in both
  modes. For a ready request the seek option is the one of the start time or
  empty, the input path is the resolved one, the duration option is empty or starts
  with \<^verbatim>\<open>-t\<close>, and the output path is the output folder joined with the name.
\<close>

theorem command_order:
  "fst (run e r g w)
     = concat [''ffmpeg '', start r, '' -i '', [DQ], str_opt (input_filename r), [DQ], '' '',
               duration r, '' '', join '' '' (options r), '' '', [DQ], output_filename r, [DQ]]
   \<and> command (fst (snd (run e r g w))) = Some (fst (run e r g w))
   \<and> (Requester e inp out s en v = (Inr r, v') \<longrightarrow> ready r \<longrightarrow>
        (\<exists>p. input_filename r = Some p
          \<and> fst (run e r g w)
              = concat [''ffmpeg '', (if s = ''00:00:00'' then [] else ''-ss '' @ s), '' -i '',
                        [DQ], p, [DQ], '' '', duration r, '' '', join '' '' (options r), '' '',
                        [DQ], path_join e (OUTPUT_FOLDER e) out, [DQ]]
          \<and> (en = ''00:00:00'' \<longrightarrow> duration r = [])
          \<and> (en \<noteq> ''00:00:00'' \<longrightarrow> startswith (duration r) ''-t '')))"
proof -
  have g: "fst (run e r g w)
     = concat [''ffmpeg '', start r, '' -i '', [DQ], str_opt (input_filename r), [DQ], '' '',
               duration r, '' '', join '' '' (options r), '' '', [DQ], output_filename r, [DQ]]"
    by (simp add: run_def Let_def)
  have c: "command (fst (snd (run e r g w))) = Some (fst (run e r g w))"
    by (simp add: run_def Let_def)
  have q: "\<exists>p. input_filename r = Some p
          \<and> fst (run e r g w)
              = concat [''ffmpeg '', (if s = ''00:00:00'' then [] else ''-ss '' @ s), '' -i '',
                        [DQ], p, [DQ], '' '', duration r, '' '', join '' '' (options r), '' '',
                        [DQ], path_join e (OUTPUT_FOLDER e) out, [DQ]]
          \<and> (en = ''00:00:00'' \<longrightarrow> duration r = [])
          \<and> (en \<noteq> ''00:00:00'' \<longrightarrow> startswith (duration r) ''-t '')"
    if R: "Requester e inp out s en v = (Inr r, v')" and rd: "ready r"
  proof -
    from Requester_ready [OF R rd] obtain p where
      p: "input_filename r = Some p" and o: "output_filename r = path_join e (OUTPUT_FOLDER e) out"
      by blast
    from Requester_options [OF R rd] have
      st: "start r = (if s = ''00:00:00'' then [] else ''-ss '' @ s)" and
      d1: "en = ''00:00:00'' \<longrightarrow> duration r = []" and
      d2: "en \<noteq> ''00:00:00'' \<longrightarrow> (\<exists>a b. duration r = ''-t '' @ hhmmss (b - a))"
      by blast+
    show ?thesis using p o st d1 d2 g by (auto simp: str_opt_def)
  qed
  show ?thesis using g c q by blast
qed

theorem command_order_witness:
  "ready (projr (fst (Requester (platform [] ''1920x1080'') ''source.mkv'' ''A/Clip.mkv''
                        ''00:16:41'' ''00:22:35'' (disk [(''in/source.mkv'', 5000)]))))
   \<and> fst (run (platform [] ''1920x1080'')
             (projr (fst (Requester (platform [] ''1920x1080'') ''source.mkv'' ''A/Clip.mkv''
                        ''00:16:41'' ''00:22:35'' (disk [(''in/source.mkv'', 5000)]))))
             True (disk []))
       = ''ffmpeg -ss 00:16:41 -i '' @ [DQ] @ ''in/source.mkv'' @ [DQ]
         @ '' -t 00:05:54 -v quiet -c:v libsvtav1 -c:s copy -c:a copy -map 0:a -map 0:v:0 ''
         @ ''-map 0:s? -force_key_frames 0 -crf 32 -threads 3 -pix_fmt yuv420p10le -vf ''
         @ [DQ] @ ''scale=trunc(iw/2)*2:720'' @ [DQ] @ '' '' @ [DQ] @ ''out/A/Clip.mkv'' @ [DQ]"
proof -
  let ?E = "platform [] ''1920x1080''"
  let ?R = "Requester ?E ''source.mkv'' ''A/Clip.mkv'' ''00:16:41'' ''00:22:35''
              (disk [(''in/source.mkv'', 5000)])"
  have a: "\<not> isl (fst ?R)" by code_simp
  have b: "ready (projr (fst ?R))" by code_simp
  have eq: "?R = (Inr (projr (fst ?R)), snd ?R)"
    using a by (cases "fst ?R") (auto simp: prod_eq_iff)
  have i: "input_filename (projr (fst ?R)) = Some ''in/source.mkv''" by code_simp
  have d: "duration (projr (fst ?R)) = ''-t 00:05:54''" by code_simp
  have o: "join '' '' (options (projr (fst ?R)))
           = ''-v quiet -c:v libsvtav1 -c:s copy -c:a copy -map 0:a -map 0:v:0 ''
             @ ''-map 0:s? -force_key_frames 0 -crf 32 -threads 3 -pix_fmt yuv420p10le -vf ''
             @ [DQ] @ ''scale=trunc(iw/2)*2:720'' @ [DQ]"
    by code_simp
  have j: "path_join ?E (OUTPUT_FOLDER ?E) ''A/Clip.mkv'' = ''out/A/Clip.mkv''" by code_simp
  from command_order [where e = ?E and r = "projr (fst ?R)" and g = True and w = "disk []"
      and inp = "''source.mkv''" and out = "''A/Clip.mkv''" and s = "''00:16:41''"
      and en = "''00:22:35''" and v = "disk [(''in/source.mkv'', 5000)]" and v' = "snd ?R"] eq b
  obtain p where p: "input_filename (projr (fst ?R)) = Some p"
    and c: "fst (run ?E (projr (fst ?R)) True (disk []))
              = concat [''ffmpeg '', (if ''00:16:41'' = ''00:00:00'' then [] else ''-ss '' @ ''00:16:41''),
                        '' -i '', [DQ], p, [DQ], '' '', duration (projr (fst ?R)), '' '',
                        join '' '' (options (projr (fst ?R))), '' '',
                        [DQ], path_join ?E (OUTPUT_FOLDER ?E) ''A/Clip.mkv'', [DQ]]"
    by blast
  have "p = ''in/source.mkv''" using p i by simp
  then show ?thesis using b c unfolding d o j by simp
qed

section \<open>The loop over the lines\<close>

lemma four_fields: "length xs = 4 \<Longrightarrow> xs = [xs ! 0, xs ! 1, xs ! 2, xs ! 3]"
  by (cases xs; simp; cases "tl xs"; simp; cases "tl (tl xs)"; simp; cases "tl (tl (tl xs))"; simp)

lemma process_line_skipped:
  assumes "\<not> startswith ln ''STOP''"
    and "startswith ln ''#'' \<or> length (split (collapse ln) TAB) \<noteq> 4"
  shows "\<exists>w'. process_line e ra av ln st w = (Inr (False, st), w')
              \<and> files w' = files w \<and> invoked w' = invoked w \<and> written w' = written w"
  using assms by (auto simp: process_line_def Let_def logger_warning_def)

lemma process_line_four:
  assumes "\<not> startswith ln ''#''" and "\<not> startswith ln ''STOP''"
    and "split (collapse ln) TAB = [out0, s, en, inp]"
  shows "process_line e ra av ln st w =
     (if exists e av (sanitize out0) \<or> ra
      then (Inr (False, st\<lparr>args := args st @ [(inp, sanitize out0, s, en)]\<rparr>), w)
      else
        (case Requester e inp (sanitize out0) s en w of
           (Inl x, w1) \<Rightarrow> (Inl x, w1)
         | (Inr r, w1) \<Rightarrow>
             if \<not> ready r
             then (Inr (False, st\<lparr>args := args st @ [(inp, sanitize out0, s, en)]\<rparr>), w1)
             else if path_exists w1 (output_filename r) then
               (if path_getsize (logger (''Already processed: '' @ output_filename r) w1)
                     (output_filename r) < 1024
                then (Inr (False, st\<lparr>args := args st @ [(inp, sanitize out0, s, en)],
                                     commands := commands st @ [ln @ [NL]]\<rparr>),
                      logger_warning (''Please check: '' @ output_filename r)
                        (logger (''Already processed: '' @ output_filename r) w1))
                else (Inr (False, st\<lparr>args := args st @ [(inp, sanitize out0, s, en)]\<rparr>),
                      logger (''Already processed: '' @ output_filename r) w1))
             else (Inr (False, st\<lparr>args := args st @ [(inp, sanitize out0, s, en)],
                                   requesters := requesters st @ [r]\<rparr>), w1)))"
  using assms
  by (simp add: process_line_def replace_sanitize Let_def split: prod.splits sum.splits)

lemma line_classes:
  obtains (stop) "startswith ln ''STOP''"
  | (skipped) "\<not> startswith ln ''STOP''"
      "startswith ln ''#'' \<or> length (split (collapse ln) TAB) \<noteq> 4"
  | (job) out0 s en inp where "\<not> startswith ln ''#''" "\<not> startswith ln ''STOP''"
      "split (collapse ln) TAB = [out0, s, en, inp]"
  using four_fields [of "split (collapse ln) TAB"] by metis

lemma grows_refl [simp]: "grows w w"
  by (simp add: grows_def)


















lemma parsed_stop: "startswith ln ''STOP'' \<Longrightarrow> parsed (ln # rest) = []"
  by (cases ln) auto

lemma parsed_skipped:
  "\<not> startswith ln ''STOP'' \<Longrightarrow> startswith ln ''#'' \<or> length (split (collapse ln) TAB) \<noteq> 4
   \<Longrightarrow> parsed (ln # rest) = parsed rest"
  by auto

lemma parsed_job:
  "\<not> startswith ln ''#'' \<Longrightarrow> \<not> startswith ln ''STOP'' \<Longrightarrow>
   split (collapse ln) TAB = [out0, s, en, inp] \<Longrightarrow>
   parsed (ln # rest) = (inp, sanitize out0, s, en) # parsed rest"
  by (simp add: replace_sanitize)

lemma lines_loop_args:
  "\<exists>w'. lines_loop e True av lines st w = (Inr (st\<lparr>args := args st @ parsed lines\<rparr>), w')"
proof (induction lines arbitrary: st w)
  case Nil
  then show ?case by simp
next
  case (Cons ln rest)
  show ?case
  proof (cases ln rule: line_classes)
    case stop
    then show ?thesis by (simp add: process_line_stop parsed_stop del: parsed.simps)
  next
    case skipped
    from process_line_skipped [OF skipped, of e True av st w]
    obtain w1 where "process_line e True av ln st w = (Inr (False, st), w1)" by blast
    then show ?thesis using Cons.IH [of st w1] parsed_skipped [OF skipped]
      by (simp del: parsed.simps)
  next
    case (job out0 s en inp)
    have "process_line e True av ln st w
            = (Inr (False, st\<lparr>args := args st @ [(inp, sanitize out0, s, en)]\<rparr>), w)"
      unfolding process_line_four [OF job] by simp
    then show ?thesis
      using Cons.IH [of "st\<lparr>args := args st @ [(inp, sanitize out0, s, en)]\<rparr>" w]
        parsed_job [OF job]
      by (simp del: parsed.simps)
  qed
qed

lemma get_requesters_args: "fst (get_requesters e lines True w) = Inr (Args (parsed lines))"
proof -
  obtain av w1 where g: "get_exists e w = (av, w1)" by (cases "get_exists e w")
  from lines_loop_args [of e av lines "\<lparr>args = [], requesters = [], commands = []\<rparr>"
      "logger ''Initialize the requesters.'' w1"]
  show ?thesis using g by (auto simp: get_requesters_def get_requesters_state_def)
qed















text \<open>
  Claim C1, on the code: the output \<^verbatim>\<open>out/Song.mp3\<close> of the only job is on disk with
  ten bytes. The loop logs the warning, appends the raw line to its list
  \<open>commands\<close> and queues no request; \<^verbatim>\<open>get_requesters\<close> returns only the requests,
  and \<^verbatim>\<open>main\<close> writes the backup from a list of its own, which is empty: the raw
  line is not in the file that \<^verbatim>\<open>backup\<close> writes.
\<close>

theorem small_output_line_not_backed_up:
  "map_sum id commands
      (fst (get_requesters_state (platform [] [])
             [job_line ''Song.mp3'' ''00:00:00'' ''00:00:00'' ''src.mkv''] False
             (disk [(''in/src.mkv'', 5000), (''out/Song.mp3'', 10)])))
     = Inr [job_line ''Song.mp3'' ''00:00:00'' ''00:00:00'' ''src.mkv'' @ [NL]]
   \<and> logged (snd (get_requesters (platform [] [])
             [job_line ''Song.mp3'' ''00:00:00'' ''00:00:00'' ''src.mkv''] False
             (disk [(''in/src.mkv'', 5000), (''out/Song.mp3'', 10)])))
     = [Info ''Found 0 existing .mkv.'', Info ''Initialize the requesters.'',
        Info ''Already processed: out/Song.mp3'', Warning ''Please check: out/Song.mp3'']
   \<and> queued_outputs (fst (get_requesters (platform [] [])
             [job_line ''Song.mp3'' ''00:00:00'' ''00:00:00'' ''src.mkv''] False
             (disk [(''in/src.mkv'', 5000), (''out/Song.mp3'', 10)])))
     = Inr []
   \<and> written (snd (main (platform [] [])
             [job_line ''Song.mp3'' ''00:00:00'' ''00:00:00'' ''src.mkv''] False
             (disk [(''in/src.mkv'', 5000), (''out/Song.mp3'', 10)])))
     = [(''backup/2026-01-01.txt'', [])]
   \<and> invoked (snd (main (platform [] [])
             [job_line ''Song.mp3'' ''00:00:00'' ''00:00:00'' ''src.mkv''] False
             (disk [(''in/src.mkv'', 5000), (''out/Song.mp3'', 10)])))
     = [''../output/remove_black.bat'']"
  by code_simp

section \<open>What ends the batch\<close>














end
